theory Spec2Isabelle
  imports Complex_Main "HOL-Library.Multiset"
begin

section \<open>JavaScript strings\<close>

text \<open>
  A JavaScript string is a sequence of UTF-16 code units. This development covers the
  code units 0 to 255 (the Latin-1 range), one \<^typ>\<open>char\<close> each, so \<open>length\<close> is the
  \<open>.length\<close> of the source. Within that range \<open>String.prototype.trim\<close> and the regular
  expression class \<open>\s\<close> share one set of white space and line terminator characters:
  TAB, LF, VT, FF, CR, SPACE and NO-BREAK SPACE.
\<close>

definition js_whitespace :: "char list" where
  "js_whitespace = [CHR 0x09, CHR 0x0A, CHR 0x0B, CHR 0x0C, CHR 0x0D, CHR 0x20, CHR 0xA0]"

definition is_space :: "char \<Rightarrow> bool" where
  "is_space c = (c \<in> set js_whitespace)"

definition trim :: "string \<Rightarrow> string" where
  "trim s = rev (dropWhile is_space (rev (dropWhile is_space s)))"

text \<open>
  \<open>toLowerCase\<close> on Latin-1: the ASCII capitals (65 to 90) and the capitals 0xC0 to 0xDE
  (192 to 222, without the multiplication sign 215) move up by 32; every other code unit
  stays.
\<close>

definition lower_char :: "char \<Rightarrow> char" where
  "lower_char c =
     (let n = (of_char c :: nat) in
      if (65 \<le> n \<and> n \<le> 90) \<or> (192 \<le> n \<and> n \<le> 222 \<and> n \<noteq> 215) then char_of (n + 32) else c)"

definition toLowerCase :: "string \<Rightarrow> string" where
  "toLowerCase s = map lower_char s"

definition startsWith :: "string \<Rightarrow> string \<Rightarrow> bool" where
  "startsWith s p = (take (length p) s = p)"

fun includesStr :: "string \<Rightarrow> string \<Rightarrow> bool" where
  "includesStr [] p = (p = [])"
| "includesStr (c # cs) p = (startsWith (c # cs) p \<or> includesStr cs p)"

section \<open>The regular expressions of the classifier\<close>

text \<open>
  The patterns carry the flag \<open>i\<close> without the flag \<open>u\<close>. Their letters are ASCII, and
  such a letter then matches its two ASCII forms only (no code unit from 128 up is
  canonicalised to an ASCII one), so a literal is compared after folding the ASCII
  capitals of the subject.
\<close>

definition ascii_lower :: "char \<Rightarrow> char" where
  "ascii_lower c =
     (let n = (of_char c :: nat) in if 65 \<le> n \<and> n \<le> 90 then char_of (n + 32) else c)"

text \<open>\<open>re_ci_lit p s\<close>: the lower-case literal \<open>p\<close> matches at the start of \<open>s\<close> under \<open>/i\<close>.\<close>

definition re_ci_lit :: "string \<Rightarrow> string \<Rightarrow> bool" where
  "re_ci_lit p s = (map ascii_lower (take (length p) s) = p)"

text \<open>\<open>s.replace(/^(k1|k2|...)\s*/i, "")\<close>: the first alternative that matches wins.\<close>

fun replace_kw_ws :: "string list \<Rightarrow> string \<Rightarrow> string" where
  "replace_kw_ws [] s = s"
| "replace_kw_ws (k # ks) s =
     (if re_ci_lit k s then dropWhile is_space (drop (length k) s) else replace_kw_ws ks s)"

text \<open>\<open>s.replace(/^(k1|k2|...)\s+/i, "")\<close>: at least one white space after the keyword.\<close>

fun replace_kw_ws1 :: "string list \<Rightarrow> string \<Rightarrow> string" where
  "replace_kw_ws1 [] s = s"
| "replace_kw_ws1 (k # ks) s =
     (if re_ci_lit k s \<and> (case drop (length k) s of [] \<Rightarrow> False | d # _ \<Rightarrow> is_space d)
      then dropWhile is_space (drop (length k) s) else replace_kw_ws1 ks s)"

definition is_digit :: "char \<Rightarrow> bool" where
  "is_digit c = (c \<in> set ''0123456789'')"

definition is_ascii_letter :: "char \<Rightarrow> bool" where
  "is_ascii_letter c = (ascii_lower c \<in> set ''abcdefghijklmnopqrstuvwxyz'')"

definition backslash :: char where
  "backslash = CHR 0x5C"

definition is_sep :: "char \<Rightarrow> bool" where
  "is_sep c = (c = backslash \<or> c = CHR ''/'')"

definition tlds :: "string list" where
  "tlds = [''com'', ''net'', ''org'', ''io'', ''dev'', ''co'', ''edu'', ''gov'', ''mil'', ''int'',
    ''app'', ''xyz'', ''tech'', ''online'', ''site'', ''website'', ''store'', ''shop'',
    ''blog'', ''info'', ''biz'', ''tv'', ''me'', ''us'', ''uk'', ''ca'', ''au'', ''de'',
    ''fr'', ''jp'', ''cn'', ''in'', ''br'', ''ru'', ''kr'', ''es'', ''it'', ''nl'', ''se'',
    ''no'', ''dk'', ''fi'', ''pl'', ''cz'', ''hu'', ''ro'', ''gr'', ''pt'', ''ie'', ''nz'',
    ''za'', ''mx'', ''ar'', ''cl'', ''co'', ''pe'', ''ve'', ''ec'', ''uy'', ''py'', ''bo'',
    ''cr'', ''pa'', ''gt'', ''hn'', ''ni'', ''sv'', ''bz'', ''jm'', ''tt'', ''bb'', ''gd'',
    ''lc'', ''vc'', ''ag'', ''dm'', ''kn'', ''bs'', ''sr'', ''gy'', ''gf'', ''fk'', ''ai'',
    ''vg'', ''ky'', ''bm'', ''tc'', ''ms'', ''aw'', ''cw'', ''sx'', ''bq'', ''mf'', ''bl'',
    ''pm'', ''wf'', ''pf'', ''nc'', ''vu'', ''fj'', ''pg'', ''sb'', ''ki'', ''tv'', ''nr'',
    ''pw'', ''fm'', ''mh'', ''as'', ''gu'', ''mp'', ''vi'', ''pr'', ''do'', ''ht'', ''cu'',
    ''jm'', ''bs'', ''bb'', ''gd'', ''lc'', ''vc'', ''ag'', ''dm'', ''kn'', ''ai'', ''vg'',
    ''ky'', ''bm'', ''tc'', ''ms'', ''aw'', ''cw'', ''sx'', ''bq'', ''mf'', ''bl'', ''pm'',
    ''wf'', ''pf'', ''nc'', ''vu'', ''fj'', ''pg'', ''sb'', ''ki'', ''nr'', ''pw'', ''fm'',
    ''mh'', ''as'', ''gu'', ''mp'', ''vi'', ''pr'', ''do'', ''ht'', ''cu'']"

definition is_domain_char :: "char \<Rightarrow> bool" where
  "is_domain_char c = (ascii_lower c \<in> set ''abcdefghijklmnopqrstuvwxyz0123456789-'')"

text \<open>
  The last alternative of \<open>urlPattern\<close>, \<open>[a-z0-9-]+\.(com|net|...)\<close>: the period is not in
  the class, so the run of class characters is the longest one; the pattern has no end
  anchor, so a top-level domain only has to start the rest.
\<close>

definition url_domain :: "string \<Rightarrow> bool" where
  "url_domain s =
     (takeWhile is_domain_char s \<noteq> [] \<and>
      list_ex (\<lambda>tld. re_ci_lit (CHR ''.'' # tld) (dropWhile is_domain_char s)) tlds)"

definition urlPattern :: "string \<Rightarrow> bool" where
  "urlPattern s =
     (re_ci_lit ''http://'' s \<or> re_ci_lit ''https://'' s \<or> re_ci_lit ''localhost'' s \<or>
      re_ci_lit ''www.'' s \<or> url_domain s)"

text \<open>\<open>/^localhost(:\d+)?/\<close>, case-sensitive; the optional group may match nothing.\<close>

definition localhostPattern :: "string \<Rightarrow> bool" where
  "localhostPattern s = startsWith s ''localhost''"

text \<open>\<open>/^([A-Za-z]:[\\\/]|\\\\|\.\.?[\\\/]|[\\\/])/\<close>\<close>

definition pathPattern :: "string \<Rightarrow> bool" where
  "pathPattern s =
     ((case s of c1 # c2 # c3 # _ \<Rightarrow> is_ascii_letter c1 \<and> c2 = CHR '':'' \<and> is_sep c3 | _ \<Rightarrow> False) \<or>
      startsWith s [backslash, backslash] \<or>
      (case s of c1 # c2 # _ \<Rightarrow> c1 = CHR ''.'' \<and> is_sep c2 | _ \<Rightarrow> False) \<or>
      (case s of c1 # c2 # c3 # _ \<Rightarrow> c1 = CHR ''.'' \<and> c2 = CHR ''.'' \<and> is_sep c3 | _ \<Rightarrow> False) \<or>
      (case s of c # _ \<Rightarrow> is_sep c | _ \<Rightarrow> False))"

text \<open>\<open>/^[\d+\-*/().\s]+$/\<close>\<close>

definition is_math_char :: "char \<Rightarrow> bool" where
  "is_math_char c = (is_digit c \<or> c \<in> set ''+-*/().'' \<or> is_space c)"

definition mathPattern :: "string \<Rightarrow> bool" where
  "mathPattern s = (s \<noteq> [] \<and> list_all is_math_char s)"

text \<open>\<open>/[\+\-\*\/\(\)]/\<close>\<close>

definition hasMathOps :: "string \<Rightarrow> bool" where
  "hasMathOps s = list_ex (\<lambda>c. c \<in> set ''+-*/()'') s"

text \<open>
  \<open>/\b(search|find|lookup|google|bing)\b/i\<close>: a keyword with no word character
  (\<open>[A-Za-z0-9_]\<close>) right before it and none right after it. The first argument of
  \<open>re_search_kw\<close> says whether the character before the current position is a word
  character.
\<close>

definition is_word_char :: "char \<Rightarrow> bool" where
  "is_word_char c = (is_ascii_letter c \<or> is_digit c \<or> c = CHR ''_'')"

definition search_keywords :: "string list" where
  "search_keywords = [''search'', ''find'', ''lookup'', ''google'', ''bing'']"

definition keyword_here :: "string \<Rightarrow> string \<Rightarrow> bool" where
  "keyword_here k s =
     (re_ci_lit k s \<and> (case drop (length k) s of [] \<Rightarrow> True | d # _ \<Rightarrow> \<not> is_word_char d))"

fun re_search_kw :: "bool \<Rightarrow> string \<Rightarrow> bool" where
  "re_search_kw prev [] = False"
| "re_search_kw prev (c # cs) =
     ((\<not> prev \<and> list_ex (\<lambda>k. keyword_here k (c # cs)) search_keywords) \<or>
      re_search_kw (is_word_char c) cs)"

definition hasSearchKeywords :: "string \<Rightarrow> bool" where
  "hasSearchKeywords s = re_search_kw False s"

section \<open>The intent classifier: \<open>detectIntent\<close>\<close>

datatype intent_type = Path | App | Calculate | Search | Chat | Quit | Switch | Recent | Url | Unknown

record intent =
  itype :: intent_type
  ivalue :: string
  confidence :: rat

text \<open>The conditions of the rules, in the order of the source; \<open>lower\<close> is the trimmed input in lower case.\<close>

definition quit_rule :: "string \<Rightarrow> bool" where
  "quit_rule lower = (lower = ''quit'' \<or> startsWith lower ''quit '')"

definition switch_rule :: "string \<Rightarrow> bool" where
  "switch_rule lower =
     (lower = ''sw'' \<or> startsWith lower ''sw '' \<or> lower = ''switch'' \<or> startsWith lower ''switch '' \<or>
      lower = ''focus'' \<or> startsWith lower ''focus '')"

definition recent_rule :: "string \<Rightarrow> bool" where
  "recent_rule lower =
     (lower = ''recent'' \<or> startsWith lower ''recent '' \<or> lower = ''recent files'' \<or>
      lower = ''recent folders'')"

definition url_rule :: "string \<Rightarrow> bool" where
  "url_rule trimmed = (urlPattern trimmed \<or> includesStr trimmed ''://'' \<or> localhostPattern trimmed)"

definition chat_rule :: "string \<Rightarrow> bool" where
  "chat_rule lower = (startsWith lower ''/chat'' \<or> startsWith lower ''/ai'')"


definition path_rule :: "string \<Rightarrow> bool" where
  "path_rule trimmed =
     ((pathPattern trimmed \<or> includesStr trimmed [backslash] \<or> includesStr trimmed ''/'') \<and>
      (length trimmed > 2 \<and> (includesStr trimmed [backslash] \<or> includesStr trimmed ''/'')))"

definition calculate_rule :: "string \<Rightarrow> bool" where
  "calculate_rule trimmed = (mathPattern trimmed \<or> (hasMathOps trimmed \<and> list_ex is_digit trimmed))"

definition open_rule :: "string \<Rightarrow> bool" where
  "open_rule lower = (startsWith lower ''open '' \<or> startsWith lower ''launch '' \<or> startsWith lower ''start '')"

definition detectIntent :: "string \<Rightarrow> intent" where
  "detectIntent input =
     (let trimmed = trim input;
          lower = toLowerCase trimmed;
          appName = trim (replace_kw_ws1 [''open'', ''launch'', ''start''] trimmed);
          isLongQuery = (length trimmed > 50)
      in
        if quit_rule lower then
          \<lparr>itype = Quit, ivalue = trim (replace_kw_ws [''quit''] trimmed), confidence = 1\<rparr>
        else if switch_rule lower then
          \<lparr>itype = Switch, ivalue = trim (replace_kw_ws [''sw'', ''switch'', ''focus''] trimmed),
           confidence = 1\<rparr>
        else if recent_rule lower then
          \<lparr>itype = Recent, ivalue = trim (replace_kw_ws [''recent''] trimmed), confidence = 1\<rparr>
        else if url_rule trimmed then
          \<lparr>itype = Url, ivalue = trimmed, confidence = 95 / 100\<rparr>
        else if chat_rule lower then
          \<lparr>itype = Chat, ivalue = trim (replace_kw_ws [''/chat''] trimmed), confidence = 1\<rparr>
        else if path_rule trimmed then
          \<lparr>itype = Path, ivalue = trimmed, confidence = 9 / 10\<rparr>
        else if calculate_rule trimmed then
          \<lparr>itype = Calculate, ivalue = trimmed, confidence = 85 / 100\<rparr>
        else if open_rule lower \<and> length appName > 0 then
          \<lparr>itype = App, ivalue = appName, confidence = 9 / 10\<rparr>
        else if isLongQuery \<and> hasSearchKeywords trimmed then
          \<lparr>itype = Search, ivalue = trimmed, confidence = 7 / 10\<rparr>
        else if length trimmed \<le> 50 then
          \<lparr>itype = App, ivalue = trimmed, confidence = 6 / 10\<rparr>
        else
          \<lparr>itype = App, ivalue = trimmed, confidence = 4 / 10\<rparr>)"

section \<open>The suggestion list and its cursor\<close>

record suggestion =
  name :: string
  path :: string
  score :: rat
  isUWP :: bool
  workingDirectory :: string
  arguments :: string

record presenter =
  suggestions :: "suggestion list"
  showSuggestions :: bool
  selectedSuggestionIndex :: int

definition initial_presenter :: presenter where
  "initial_presenter = \<lparr>suggestions = [], showSuggestions = False, selectedSuggestionIndex = 0\<rparr>"

datatype key = ArrowDown | ArrowUp | Escape | Enter | OtherKey

text \<open>
  \<open>handleKeyDown\<close>, as far as it writes the three state variables. With Enter the handler
  hides and empties the list before it hands the selected entry to \<open>handleExecute\<close>.
\<close>

definition handleKeyDown :: "key \<Rightarrow> presenter \<Rightarrow> presenter" where
  "handleKeyDown k p =
     (if showSuggestions p \<and> length (suggestions p) > 0 then
        (case k of
           ArrowDown \<Rightarrow>
             p\<lparr>selectedSuggestionIndex :=
                 (let prev = selectedSuggestionIndex p in
                  if prev < int (length (suggestions p)) - 1 then prev + 1 else prev)\<rparr>
         | ArrowUp \<Rightarrow>
             p\<lparr>selectedSuggestionIndex :=
                 (let prev = selectedSuggestionIndex p in if prev > 0 then prev - 1 else 0)\<rparr>
         | Escape \<Rightarrow> p\<lparr>showSuggestions := False, suggestions := [], selectedSuggestionIndex := 0\<rparr>
         | Enter \<Rightarrow> p\<lparr>showSuggestions := False, suggestions := []\<rparr>
         | OtherKey \<Rightarrow> p)
      else p)"

text \<open>
  The resolution of a fetch: every branch of the suggestion effects that sets a non-empty
  list also shows it and sets the cursor to 0; with nothing to show the list is emptied
  and hidden, and the cursor is left as it is.
\<close>

definition setResults :: "suggestion list \<Rightarrow> presenter \<Rightarrow> presenter" where
  "setResults xs p =
     (if length xs > 0
      then p\<lparr>suggestions := xs, showSuggestions := True, selectedSuggestionIndex := 0\<rparr>
      else p\<lparr>suggestions := [], showSuggestions := False\<rparr>)"

text \<open>
  The steps of the presenter: a key, the resolution of a fetch, the mouse entering the
  row \<open>i\<close> of the rendered list (a row exists for each index of the list only), and
  \<open>handleExecute\<close>, which empties the list and hides it (or shows it again, for a bare
  \<open>quit\<close>). The state updates of one handler take effect together, as React batches
  them.
\<close>

inductive presenter_step :: "presenter \<Rightarrow> presenter \<Rightarrow> bool" where
  key_down: "presenter_step p (handleKeyDown k p)"
| results: "presenter_step p (setResults xs p)"
| mouse_enter: "i < length (suggestions p) \<Longrightarrow> presenter_step p (p\<lparr>selectedSuggestionIndex := int i\<rparr>)"
| execute: "presenter_step p (p\<lparr>showSuggestions := b, suggestions := []\<rparr>)"

inductive reachable :: "presenter \<Rightarrow> bool" where
  init: "reachable initial_presenter"
| step: "reachable p \<Longrightarrow> presenter_step p q \<Longrightarrow> reachable q"

definition cursor_in_bounds :: "presenter \<Rightarrow> bool" where
  "cursor_in_bounds p =
     (suggestions p = [] \<or>
      (0 \<le> selectedSuggestionIndex p \<and> selectedSuggestionIndex p < int (length (suggestions p))))"

section \<open>Pending confirmations\<close>



datatype step_type = open_terminal | open_app | open_file | other_step

record confirmation =
  ctype :: step_type
  originalValue :: string
  appName :: "string option"
  stepIndex :: nat

text \<open>The operations on the outside world that the handlers start.\<close>

datatype effect =
    OpenTerminalInDirectory string
  | ExecAsync string
  | OpenApplication string
  | OpenFileOrFolder string

record server =
  pendingConfirmations :: "string \<rightharpoonup> confirmation"
  confirmationIdCounter :: nat
  ide :: string
  effects :: "effect list"



fun decimal :: "nat \<Rightarrow> string" where
  "decimal n =
     (if n < 10 then [char_of (48 + n)] else decimal (n div 10) @ [char_of (48 + n mod 10)])"

text \<open>
  \<open>executeComplexWorkflow\<close>, where the path of a step does not exist: the step is stored
  under a fresh id \<open>confirm_<now>_<counter>\<close> and nothing is started.
\<close>

definition raise_confirmation :: "nat \<Rightarrow> confirmation \<Rightarrow> server \<Rightarrow> string \<times> server" where
  "raise_confirmation now c s =
     (let counter = confirmationIdCounter s + 1;
          cid = ''confirm_'' @ decimal now @ ''_'' @ decimal counter
      in (cid, s\<lparr>confirmationIdCounter := counter,
                  pendingConfirmations := (pendingConfirmations s)(cid \<mapsto> c)\<rparr>))"






declare decimal.simps [simp del]

section \<open>Ranking installed applications: \<open>searchApps\<close>\<close>














section \<open>Suggestions for Switch and Quit\<close>







section \<open>Predicates of the specification\<close>


definition spec_quit_regex :: "string \<Rightarrow> bool" where
  "spec_quit_regex t =
     (re_ci_lit ''quit'' t \<and>
      (case drop 4 t of [] \<Rightarrow> True
       | c # cs \<Rightarrow> is_space c \<and> list_all (\<lambda>d. d \<noteq> CHR 0x0A \<and> d \<noteq> CHR 0x0D) cs))"




section \<open>Example data\<close>





section \<open>Properties of the classifier\<close>

subsection \<open>Auxiliary facts about strings and patterns\<close>

lemma dropWhile_idem: "dropWhile P (dropWhile P xs) = dropWhile P xs"
  by (induction xs) auto

lemma trim_Nil_or_ends:
  "trim s = [] \<or> (\<not> is_space (hd (trim s)) \<and> \<not> is_space (last (trim s)))"
proof -
  let ?a = "dropWhile is_space s"
  let ?b = "dropWhile is_space (rev ?a)"
  show ?thesis
  proof (cases "?b = []")
    case True then show ?thesis by (simp add: trim_def)
  next
    case False
    then have hb: "\<not> is_space (hd ?b)" by (simp add: hd_dropWhile)
    have "?a \<noteq> []"
    proof
      assume a: "?a = []"
      have "?b = []" unfolding a by simp
      with False show False by blast
    qed
    then have ha: "\<not> is_space (hd ?a)" by (simp add: hd_dropWhile)
    obtain ys where ys: "rev ?a = takeWhile is_space (rev ?a) @ ?b" by simp
    then have "?a = rev ?b @ rev (takeWhile is_space (rev ?a))"
      by (metis rev_append rev_rev_ident)
    then have "hd ?a = hd (rev ?b)" using False
      by (metis hd_append2 rev_is_Nil_conv)
    then show ?thesis using ha hb False by (simp add: trim_def last_rev)
  qed
qed

lemma trim_fixed:
  assumes "s = [] \<or> (\<not> is_space (hd s) \<and> \<not> is_space (last s))"
  shows "trim s = s"
proof (cases "s = []")
  case True then show ?thesis by (simp add: trim_def)
next
  case False
  with assms have h: "\<not> is_space (hd s)" and l: "\<not> is_space (last s)" by auto
  have 1: "dropWhile is_space s = s" using False h by (cases s) auto
  have 2: "dropWhile is_space (rev s) = rev s" using False l
    by (cases "rev s") (auto simp: last_rev[symmetric] hd_rev)
  show ?thesis by (simp add: trim_def 1 2)
qed

lemma trim_trim: "trim (trim s) = trim s"
  by (rule trim_fixed) (rule trim_Nil_or_ends)

lemma trim_dropWhile: "trim (dropWhile is_space s) = trim s"
  by (simp add: trim_def dropWhile_idem)


lemma ascii_range: "x \<in> set ''abcdefghijklmnopqrstuvwxyz/ '' \<Longrightarrow> of_char x \<le> (122::nat)"
  by auto

lemma lower_char_ascii:
  assumes "lower_char c \<in> set ''abcdefghijklmnopqrstuvwxyz/ ''"
  shows "ascii_lower c = lower_char c"
proof (cases "192 \<le> (of_char c :: nat) \<and> (of_char c :: nat) \<le> 222 \<and> (of_char c :: nat) \<noteq> 215")
  case True
  then have "lower_char c = char_of ((of_char c :: nat) + 32)" by (simp add: lower_char_def)
  then have "of_char (lower_char c) = (of_char c :: nat) + 32" using True by simp
  with ascii_range[OF assms] True show ?thesis by simp
next
  case False
  then show ?thesis by (auto simp: lower_char_def ascii_lower_def Let_def)
qed

lemma startsWith_toLower_re_ci:
  assumes "startsWith (toLowerCase t) p" and "set p \<subseteq> set ''abcdefghijklmnopqrstuvwxyz/ ''"
  shows "re_ci_lit p t"
proof -
  from assms(1) have eq: "map lower_char (take (length p) t) = p"
    by (simp add: startsWith_def toLowerCase_def take_map)
  have "\<forall>c \<in> set (take (length p) t). ascii_lower c = lower_char c"
  proof
    fix c assume c: "c \<in> set (take (length p) t)"
    then have "lower_char c \<in> set p" using eq by (metis image_eqI set_map)
    with assms(2) show "ascii_lower c = lower_char c" by (intro lower_char_ascii) blast
  qed
  then have "map ascii_lower (take (length p) t) = map lower_char (take (length p) t)"
    by simp
  with eq show ?thesis by (simp add: re_ci_lit_def)
qed

lemma startsWith_self: "startsWith s s"
  by (simp add: startsWith_def)

lemma startsWith_append: "startsWith s (p @ q) \<Longrightarrow> startsWith s p"
  by (auto simp: startsWith_def) (metis append_eq_conv_conj take_take length_append append_take_drop_id)


lemma startsWith_hd: "startsWith s (c # p) \<Longrightarrow> s \<noteq> [] \<and> hd s = c"
  by (cases s) (auto simp: startsWith_def)

lemma re_ci_lit_hd: "re_ci_lit (c # p) s \<Longrightarrow> s \<noteq> [] \<and> ascii_lower (hd s) = c"
  by (cases s) (auto simp: re_ci_lit_def)




lemma quit_rule_re: "quit_rule (toLowerCase t) \<Longrightarrow> re_ci_lit ''quit'' t"
proof -
  assume "quit_rule (toLowerCase t)"
  then have "startsWith (toLowerCase t) ''quit''"
    unfolding quit_rule_def using startsWith_append[of "toLowerCase t" "''quit''" "'' ''"] startsWith_self
    by auto
  then show ?thesis by (rule startsWith_toLower_re_ci) simp
qed


lemma startsWith_mem: "startsWith s p \<Longrightarrow> c \<in> set p \<Longrightarrow> c \<in> set s"
  by (metis startsWith_def in_set_takeD)

lemma includesStr_mem_gen: "includesStr s p \<Longrightarrow> c \<in> set p \<Longrightarrow> c \<in> set s"
  by (induction s) (auto dest: startsWith_mem)
















subsection \<open>The classifier trims first\<close>

text \<open>
  Claim C10. \<open>detectIntent\<close> is insensitive to surrounding white space: for every input
  the result (type, value and confidence) is the result on the trimmed input.
\<close>

theorem detectIntent_trim_insensitive: "detectIntent s = detectIntent (trim s)"
  by (simp add: detectIntent_def trim_trim)

theorem detectIntent_trim_insensitive_witness:
  "detectIntent ''  open notepad  '' = detectIntent (trim ''  open notepad  '') \<and>
   detectIntent ''  open notepad  '' = \<lparr>itype = App, ivalue = ''notepad'', confidence = 9 / 10\<rparr>"
proof -
  have "detectIntent ''  open notepad  '' = \<lparr>itype = App, ivalue = ''notepad'', confidence = 9 / 10\<rparr>"
    by code_simp
  with detectIntent_trim_insensitive[of "''  open notepad  ''"] show ?thesis by simp
qed

subsection \<open>The classifier is total over nine variants\<close>

text \<open>
  Claim C9. For every input \<open>detectIntent\<close> returns one of the nine variants other than
  \<open>Unknown\<close>: whatever the rules for the eight other variants do not take is an App
  query, by the explicit verb with confidence 0.9 or by one of the two trailing
  branches, with confidence 0.6 up to 50 characters and 0.4 beyond.
\<close>

theorem detectIntent_never_unknown:
  "itype (detectIntent s) \<noteq> Unknown \<and>
   (itype (detectIntent s) \<notin> {Quit, Switch, Recent, Url, Chat, Path, Calculate, Search} \<longrightarrow>
      itype (detectIntent s) = App \<and>
      (confidence (detectIntent s) = 9 / 10 \<or>
       confidence (detectIntent s) = (if length (trim s) \<le> 50 then 6 / 10 else 4 / 10)))"
  by (simp add: detectIntent_def Let_def del: replace_kw_ws1.simps replace_kw_ws.simps)

theorem detectIntent_never_unknown_witness:
  "itype (detectIntent ''what is this'') \<noteq> Unknown \<and> itype (detectIntent ''what is this'') = App"
proof -
  have "itype (detectIntent ''what is this'') = App" by code_simp
  with detectIntent_never_unknown[of "''what is this''"] show ?thesis by simp
qed

subsection \<open>Quit comes first\<close>

text \<open>
  Claim C4, as stated, fails: the pattern \<open>^quit(\s.*)?$\<close> accepts any white space after
  the keyword, the source asks for a space. With a TAB the input is an App query.
\<close>

theorem quit_regex_counterexample:
  "spec_quit_regex (trim (''quit'' @ [CHR 0x09] @ ''x'')) \<and>
   detectIntent (''quit'' @ [CHR 0x09] @ ''x'') =
     \<lparr>itype = App, ivalue = ''quit'' @ [CHR 0x09] @ ''x'', confidence = 6 / 10\<rparr>"
  by code_simp

text \<open>
  Claim C4, amended. For every input whose trimmed text in lower case is \<open>quit\<close> or starts
  with \<open>quit\<close> and a space, \<open>detectIntent\<close> returns Quit with confidence 1 and the trimmed
  remainder after the keyword as value. The rule precedes the Url rule:
  \<open>quit https://x.com\<close> is Quit although its remainder is a URL.
\<close>

theorem quit_rule_first:
  "(quit_rule (toLowerCase (trim s)) \<longrightarrow>
      detectIntent s = \<lparr>itype = Quit, ivalue = trim (drop 4 (trim s)), confidence = 1\<rparr>) \<and>
   detectIntent ''quit https://x.com'' = \<lparr>itype = Quit, ivalue = ''https://x.com'', confidence = 1\<rparr> \<and>
   url_rule ''quit https://x.com''"
proof (intro conjI impI)
  assume q: "quit_rule (toLowerCase (trim s))"
  with quit_rule_re[OF q]
  show "detectIntent s = \<lparr>itype = Quit, ivalue = trim (drop 4 (trim s)), confidence = 1\<rparr>"
    by (simp add: detectIntent_def Let_def trim_dropWhile eval_nat_numeral)
next
  show "detectIntent ''quit https://x.com'' = \<lparr>itype = Quit, ivalue = ''https://x.com'', confidence = 1\<rparr>"
    by code_simp
next
  show "url_rule ''quit https://x.com''" by code_simp
qed

theorem quit_rule_first_witness:
  "quit_rule (toLowerCase (trim ''  QUIT   Chrome '')) \<and>
   detectIntent ''  QUIT   Chrome '' = \<lparr>itype = Quit, ivalue = ''Chrome'', confidence = 1\<rparr>"
proof -
  have q: "quit_rule (toLowerCase (trim ''  QUIT   Chrome ''))" by code_simp
  have v: "trim (drop 4 (trim ''  QUIT   Chrome '')) = ''Chrome''" by code_simp
  from quit_rule_first[of "''  QUIT   Chrome ''"] q v show ?thesis by simp
qed

subsection \<open>Pure arithmetic\<close>




subsection \<open>Paths\<close>







subsection \<open>Chat\<close>

lemma slash_first:
  assumes "startsWith (toLowerCase t) (CHR ''/'' # p)"
  shows "t \<noteq> []" and "lower_char (hd t) = CHR ''/''" and "ascii_lower (hd t) = CHR ''/''"
proof -
  from startsWith_hd[OF assms] have l: "toLowerCase t \<noteq> []" "hd (toLowerCase t) = CHR ''/''" by auto
  then show t: "t \<noteq> []" by (auto simp: toLowerCase_def)
  with l(2) show h: "lower_char (hd t) = CHR ''/''" by (simp add: toLowerCase_def hd_map)
  then have "lower_char (hd t) \<in> set ''abcdefghijklmnopqrstuvwxyz/ ''" by simp
  from lower_char_ascii[OF this] h show "ascii_lower (hd t) = CHR ''/''" by simp
qed

lemma slash_no_early:
  assumes s: "startsWith (toLowerCase t) (CHR ''/'' # p)"
  shows "\<not> quit_rule (toLowerCase t)" "\<not> switch_rule (toLowerCase t)" "\<not> recent_rule (toLowerCase t)"
proof -
  from startsWith_hd[OF s] have l: "toLowerCase t \<noteq> []" "hd (toLowerCase t) = CHR ''/''" by auto
  have sw: "\<And>c q. c \<noteq> CHR ''/'' \<Longrightarrow> \<not> startsWith (toLowerCase t) (c # q)"
    using startsWith_hd l by metis
  have eq: "\<And>c q. c \<noteq> CHR ''/'' \<Longrightarrow> toLowerCase t \<noteq> c # q"
    using l by (metis list.sel(1))
  show "\<not> quit_rule (toLowerCase t)"
    unfolding quit_rule_def using sw[of "CHR ''q''"] eq[of "CHR ''q''"] by simp
  show "\<not> switch_rule (toLowerCase t)"
    unfolding switch_rule_def using sw[of "CHR ''s''"] eq[of "CHR ''s''"] sw[of "CHR ''f''"] eq[of "CHR ''f''"] by simp
  show "\<not> recent_rule (toLowerCase t)"
    unfolding recent_rule_def using sw[of "CHR ''r''"] eq[of "CHR ''r''"] by simp
qed

lemma slash_no_urlPattern:
  assumes s: "startsWith (toLowerCase t) (CHR ''/'' # p)"
  shows "\<not> urlPattern t" and "\<not> localhostPattern t"
proof -
  note f = slash_first[OF s]
  have re: "\<And>c q. c \<noteq> CHR ''/'' \<Longrightarrow> \<not> re_ci_lit (c # q) t"
    using re_ci_lit_hd f(3) by metis
  have "\<not> is_domain_char (hd t)" using f(3) by (simp add: is_domain_char_def)
  then have "takeWhile is_domain_char t = []" using f(1) by (cases t) auto
  then have d: "\<not> url_domain t" by (simp add: url_domain_def)
  show "\<not> urlPattern t"
    unfolding urlPattern_def using d re[of "CHR ''h''"] re[of "CHR ''l''"] re[of "CHR ''w''"] by simp
  have "hd t \<noteq> CHR ''l''"
  proof
    assume "hd t = CHR ''l''"
    then have "ascii_lower (hd t) = CHR ''l''" by (simp add: ascii_lower_def)
    with f(3) show False by simp
  qed
  then show "\<not> localhostPattern t"
    unfolding localhostPattern_def using startsWith_hd by metis
qed


text \<open>
  Claim C3, as stated, fails: the Url rule comes before the Chat rule and takes every
  input that contains \<open>://\<close>. (And the value of an \<open>/ai\<close> input keeps its prefix: only
  \<open>/chat\<close> is stripped.)
\<close>

theorem chat_counterexample:
  "startsWith (toLowerCase (trim ''/chat see https://x.com'')) ''/chat'' \<and>
   detectIntent ''/chat see https://x.com'' =
     \<lparr>itype = Url, ivalue = ''/chat see https://x.com'', confidence = 95 / 100\<rparr> \<and>
   startsWith (toLowerCase (trim ''/ai hello'')) ''/ai'' \<and>
   detectIntent ''/ai hello'' = \<lparr>itype = Chat, ivalue = ''/ai hello'', confidence = 1\<rparr>"
proof -
  have t: "trim ''/chat see https://x.com'' = ''/chat see https://x.com''" "trim ''/ai hello'' = ''/ai hello''"
    by code_simp+
  have l: "toLowerCase ''/chat see https://x.com'' = ''/chat see https://x.com''"
    "toLowerCase ''/ai hello'' = ''/ai hello''"
    by code_simp+
  have r: "\<not> quit_rule ''/chat see https://x.com''" "\<not> switch_rule ''/chat see https://x.com''"
    "\<not> recent_rule ''/chat see https://x.com''" "url_rule ''/chat see https://x.com''"
    "startsWith ''/chat see https://x.com'' ''/chat''"
    by code_simp+
  have r2: "\<not> quit_rule ''/ai hello''" "\<not> switch_rule ''/ai hello''"
    "\<not> recent_rule ''/ai hello''" "\<not> url_rule ''/ai hello''" "chat_rule ''/ai hello''"
    "startsWith ''/ai hello'' ''/ai''" "trim (replace_kw_ws [''/chat''] ''/ai hello'') = ''/ai hello''"
    by code_simp+
  show ?thesis using r r2
    by (simp add: detectIntent_def Let_def t l del: replace_kw_ws1.simps replace_kw_ws.simps)
qed

text \<open>
  Claim C3, amended. For every input whose trimmed text starts with \<open>/chat\<close> (in any
  case) and does not contain \<open>://\<close>, \<open>detectIntent\<close> returns Chat with confidence 1 and
  the trimmed remainder after the prefix as value; with the prefix \<open>/ai\<close> it returns Chat
  with confidence 1. The input \<open>/chat open my project\<close> yields the value
  \<open>open my project\<close>.
\<close>

theorem chat_prefix:
  "(startsWith (toLowerCase (trim s)) ''/chat'' \<and> \<not> includesStr (trim s) ''://'' \<longrightarrow>
      detectIntent s = \<lparr>itype = Chat, ivalue = trim (drop 5 (trim s)), confidence = 1\<rparr>) \<and>
   (startsWith (toLowerCase (trim s)) ''/ai'' \<and> \<not> includesStr (trim s) ''://'' \<longrightarrow>
      itype (detectIntent s) = Chat \<and> confidence (detectIntent s) = 1) \<and>
   detectIntent ''/chat open my project'' =
     \<lparr>itype = Chat, ivalue = ''open my project'', confidence = 1\<rparr>"
proof (intro conjI impI)
  assume a: "startsWith (toLowerCase (trim s)) ''/chat'' \<and> \<not> includesStr (trim s) ''://''"
  then have sw: "startsWith (toLowerCase (trim s)) ''/chat''" by simp
  have re: "re_ci_lit ''/chat'' (trim s)" using sw by (rule startsWith_toLower_re_ci) simp
  have u: "\<not> url_rule (trim s)"
    using a slash_no_urlPattern[OF sw] by (simp add: url_rule_def)
  show "detectIntent s = \<lparr>itype = Chat, ivalue = trim (drop 5 (trim s)), confidence = 1\<rparr>"
    using slash_no_early[OF sw] u sw re
    by (simp add: detectIntent_def Let_def chat_rule_def trim_dropWhile eval_nat_numeral
        del: replace_kw_ws1.simps)
next
  assume a: "startsWith (toLowerCase (trim s)) ''/ai'' \<and> \<not> includesStr (trim s) ''://''"
  then have sw: "startsWith (toLowerCase (trim s)) ''/ai''" by simp
  have u: "\<not> url_rule (trim s)"
    using a slash_no_urlPattern[OF sw] by (simp add: url_rule_def)
  show "itype (detectIntent s) = Chat"
    using slash_no_early[OF sw] u sw
    by (simp add: detectIntent_def Let_def chat_rule_def del: replace_kw_ws1.simps replace_kw_ws.simps)
  show "confidence (detectIntent s) = 1"
    using slash_no_early[OF sw] u sw
    by (simp add: detectIntent_def Let_def chat_rule_def del: replace_kw_ws1.simps replace_kw_ws.simps)
next
  have t: "trim ''/chat open my project'' = ''/chat open my project''" by code_simp
  have l: "toLowerCase ''/chat open my project'' = ''/chat open my project''" by code_simp
  have r: "\<not> quit_rule ''/chat open my project''" "\<not> switch_rule ''/chat open my project''"
    "\<not> recent_rule ''/chat open my project''" "\<not> url_rule ''/chat open my project''"
    "chat_rule ''/chat open my project''"
    "trim (replace_kw_ws [''/chat''] ''/chat open my project'') = ''open my project''"
    by code_simp+
  show "detectIntent ''/chat open my project'' =
     \<lparr>itype = Chat, ivalue = ''open my project'', confidence = 1\<rparr>"
    using r by (simp add: detectIntent_def Let_def t l del: replace_kw_ws1.simps replace_kw_ws.simps)
qed

theorem chat_prefix_witness:
  "startsWith (toLowerCase (trim '' /Chat  hi there '')) ''/chat'' \<and>
   \<not> includesStr (trim '' /Chat  hi there '') ''://'' \<and>
   detectIntent '' /Chat  hi there '' = \<lparr>itype = Chat, ivalue = ''hi there'', confidence = 1\<rparr>"
proof -
  have t: "trim '' /Chat  hi there '' = ''/Chat  hi there''" by code_simp
  have l: "toLowerCase ''/Chat  hi there'' = ''/chat  hi there''" by code_simp
  have r: "startsWith ''/chat  hi there'' ''/chat''" "\<not> includesStr ''/Chat  hi there'' ''://''"
    "trim (drop 5 ''/Chat  hi there'') = ''hi there''"
    by code_simp+
  from chat_prefix[of "'' /Chat  hi there ''"] r show ?thesis by (simp add: t l)
qed

section \<open>The selection cursor\<close>

lemma step_inv: "presenter_step p q \<Longrightarrow> cursor_in_bounds p \<Longrightarrow> cursor_in_bounds q"
  by (induction rule: presenter_step.induct)
    (auto simp: cursor_in_bounds_def handleKeyDown_def setResults_def Let_def split: key.splits)

lemma reachable_inv: "reachable p \<Longrightarrow> cursor_in_bounds p"
  by (induction rule: reachable.induct) (auto simp: cursor_in_bounds_def initial_presenter_def dest: step_inv)

text \<open>
  Claim C8. In every state the presenter reaches, the cursor is within the bounds of a
  non-empty list. ArrowUp at index 0 leaves the cursor at 0, ArrowDown at the last index
  leaves it there, and a non-empty result replaces the list and sets the cursor to 0.
\<close>

theorem cursor_bounds:
  "(reachable p \<longrightarrow> cursor_in_bounds p) \<and>
   (showSuggestions p \<and> suggestions p \<noteq> [] \<and> selectedSuggestionIndex p = 0 \<longrightarrow>
      selectedSuggestionIndex (handleKeyDown ArrowUp p) = 0) \<and>
   (showSuggestions p \<and> suggestions p \<noteq> [] \<and>
    selectedSuggestionIndex p = int (length (suggestions p)) - 1 \<longrightarrow>
      selectedSuggestionIndex (handleKeyDown ArrowDown p) = int (length (suggestions p)) - 1) \<and>
   (xs \<noteq> [] \<longrightarrow> suggestions (setResults xs p) = xs \<and> selectedSuggestionIndex (setResults xs p) = 0)"
  using reachable_inv by (auto simp: handleKeyDown_def setResults_def)

theorem cursor_bounds_witness:
  "reachable (handleKeyDown ArrowDown (handleKeyDown ArrowDown
      (setResults [\<lparr>name = ''Switch to chrome'', path = ''chrome'', score = 1, isUWP = False,
                     workingDirectory = [], arguments = []\<rparr>,
                   \<lparr>name = ''Switch to code'', path = ''code'', score = 1, isUWP = False,
                     workingDirectory = [], arguments = []\<rparr>] initial_presenter))) \<and>
   cursor_in_bounds (handleKeyDown ArrowDown (handleKeyDown ArrowDown
      (setResults [\<lparr>name = ''Switch to chrome'', path = ''chrome'', score = 1, isUWP = False,
                     workingDirectory = [], arguments = []\<rparr>,
                   \<lparr>name = ''Switch to code'', path = ''code'', score = 1, isUWP = False,
                     workingDirectory = [], arguments = []\<rparr>] initial_presenter))) \<and>
   selectedSuggestionIndex (handleKeyDown ArrowDown (handleKeyDown ArrowDown
      (setResults [\<lparr>name = ''Switch to chrome'', path = ''chrome'', score = 1, isUWP = False,
                     workingDirectory = [], arguments = []\<rparr>,
                   \<lparr>name = ''Switch to code'', path = ''code'', score = 1, isUWP = False,
                     workingDirectory = [], arguments = []\<rparr>] initial_presenter))) = 1"
proof -
  let ?xs = "[\<lparr>name = ''Switch to chrome'', path = ''chrome'', score = 1, isUWP = False,
                     workingDirectory = [], arguments = []\<rparr>,
                   \<lparr>name = ''Switch to code'', path = ''code'', score = 1, isUWP = False,
                     workingDirectory = [], arguments = []\<rparr>]"
  let ?p1 = "setResults ?xs initial_presenter"
  let ?p2 = "handleKeyDown ArrowDown ?p1"
  let ?p3 = "handleKeyDown ArrowDown ?p2"
  have "reachable ?p1" by (rule reachable.step[OF reachable.init presenter_step.results])
  then have "reachable ?p2" by (rule reachable.step[OF _ presenter_step.key_down])
  then have r: "reachable ?p3" by (rule reachable.step[OF _ presenter_step.key_down])
  have v: "selectedSuggestionIndex ?p3 = 1"
    by (simp add: handleKeyDown_def setResults_def initial_presenter_def)
  from cursor_bounds[of ?p3] r v show ?thesis by blast
qed

section \<open>Declining a pending confirmation\<close>



lemma raise_confirmation_stores:
  assumes "raise_confirmation now c s = (cid, s')"
  shows "cid \<noteq> []" and "pendingConfirmations s' cid = Some c" and "effects s' = effects s"
  using assms by (auto simp: raise_confirmation_def Let_def)




section \<open>The tiers of \<open>searchApps\<close>\<close>
















section \<open>The order of the Switch and Quit suggestions\<close>













end
